theory Spec2Isabelle
  imports Complex_Main "HOL-Library.Word"
begin

section \<open>JavaScript numbers\<close>

text \<open>
  The decoder of \<^verbatim>\<open>src/components/yolo-detector.tsx\<close> works on JavaScript numbers: the
  entries of a \<^verbatim>\<open>Float32Array\<close>, read as doubles. A number is a finite value, one of the
  two infinities, or NaN. Finite values are exact rationals here (every finite float is one);
  the rounding of \<^verbatim>\<open>+\<close> and \<^verbatim>\<open>-\<close> to the nearest double is not modelled, and neither is
  the sign of zero (\<^verbatim>\<open>-0\<close> and \<^verbatim>\<open>0\<close> compare equal in every test the code makes).
  Rounding is monotone, so the order facts below do not depend on it.
\<close>

datatype jsnum = Finite rat | PosInf | NegInf | NaN

text \<open>\<^verbatim>\<open>a > b\<close>: false as soon as one side is NaN.\<close>

fun jgt :: "jsnum \<Rightarrow> jsnum \<Rightarrow> bool" where
  "jgt NaN b = False"
| "jgt a NaN = False"
| "jgt PosInf PosInf = False"
| "jgt PosInf b = True"
| "jgt NegInf b = False"
| "jgt (Finite a) PosInf = False"
| "jgt (Finite a) NegInf = True"
| "jgt (Finite a) (Finite b) = (b < a)"

text \<open>\<^verbatim>\<open>a <= b\<close>, used to state properties: \<^verbatim>\<open>a < b\<close> or both equal and not NaN.\<close>

definition jle :: "jsnum \<Rightarrow> jsnum \<Rightarrow> bool" where
  "jle a b = (jgt b a \<or> (a = b \<and> a \<noteq> NaN))"

text \<open>\<^verbatim>\<open>Math.max\<close> and \<^verbatim>\<open>Math.min\<close> of two arguments: NaN if either is NaN.\<close>

definition jmax :: "jsnum \<Rightarrow> jsnum \<Rightarrow> jsnum" where
  "jmax a b = (if a = NaN \<or> b = NaN then NaN else if jgt a b then a else b)"

definition jmin :: "jsnum \<Rightarrow> jsnum \<Rightarrow> jsnum" where
  "jmin a b = (if a = NaN \<or> b = NaN then NaN else if jgt a b then b else a)"

fun jadd :: "jsnum \<Rightarrow> jsnum \<Rightarrow> jsnum" where
  "jadd NaN b = NaN"
| "jadd a NaN = NaN"
| "jadd PosInf NegInf = NaN"
| "jadd NegInf PosInf = NaN"
| "jadd PosInf b = PosInf"
| "jadd NegInf b = NegInf"
| "jadd (Finite a) PosInf = PosInf"
| "jadd (Finite a) NegInf = NegInf"
| "jadd (Finite a) (Finite b) = Finite (a + b)"

fun jsub :: "jsnum \<Rightarrow> jsnum \<Rightarrow> jsnum" where
  "jsub NaN b = NaN"
| "jsub a NaN = NaN"
| "jsub PosInf PosInf = NaN"
| "jsub NegInf NegInf = NaN"
| "jsub PosInf b = PosInf"
| "jsub NegInf b = NegInf"
| "jsub (Finite a) PosInf = NegInf"
| "jsub (Finite a) NegInf = PosInf"
| "jsub (Finite a) (Finite b) = Finite (a - b)"

text \<open>
  Division by a positive finite constant: the only divisions of the decoder are
  \<^verbatim>\<open>/ 2\<close> and \<^verbatim>\<open>/ IMG_SIZE\<close>.
\<close>

fun jdivc :: "jsnum \<Rightarrow> nat \<Rightarrow> jsnum" where
  "jdivc (Finite a) c = Finite (a / of_nat c)"
| "jdivc PosInf c = PosInf"
| "jdivc NegInf c = NegInf"
| "jdivc NaN c = NaN"

section \<open>Data model\<close>

text \<open>
  An output tensor of the inference engine: \<^verbatim>\<open>dims\<close> (non-negative integers) and the flat
  \<^verbatim>\<open>data\<close> buffer.
\<close>

record tensor =
  dims :: "nat list"
  data :: "jsnum list"

record detection =
  classId :: nat
  score :: jsnum
  bbox :: "jsnum \<times> jsnum \<times> jsnum \<times> jsnum"
  className :: string

definition COCO_CLASSES :: "string list" where
  "COCO_CLASSES = [''angry'', ''fear'', ''disgust'', ''happy'', ''sad'', ''neutral'', ''surprise'']"

definition IMG_SIZE :: nat where
  "IMG_SIZE = 128"

text \<open>
  \<^verbatim>\<open>data[k]\<close>: an index past the end of a typed array yields \<^verbatim>\<open>undefined\<close>, and every use
  the decoder makes of the value (arithmetic, \<^verbatim>\<open>></\<close>) converts \<^verbatim>\<open>undefined\<close> to NaN.
\<close>

definition rd :: "jsnum list \<Rightarrow> nat \<Rightarrow> jsnum" where
  "rd xs k = (if k < length xs then xs ! k else NaN)"

text \<open>The decimal digits of a number, for the template string \<^verbatim>\<open>`Class ${maxClassId}`\<close>.\<close>

function showNat :: "nat \<Rightarrow> string" where
  "showNat n = (if n < 10 then [char_of (48 + n)]
                else showNat (n div 10) @ [char_of (48 + n mod 10)])"
  by pat_completeness auto
termination
  by (relation "measure id") auto

section \<open>The output decoder: processDetections\<close>

text \<open>
  The inner loop of \<^verbatim>\<open>processDetections\<close> (lines 152 to 161): \<^verbatim>\<open>j\<close> runs over the class
  rows of column \<^verbatim>\<open>i\<close>, \<^verbatim>\<open>maxScore\<close> and \<^verbatim>\<open>maxClassId\<close> are the loop's variables.
  \<^verbatim>\<open>numClasses\<close> is \<^verbatim>\<open>numOutputs - 4\<close> and may be negative. The score read at step
  \<^verbatim>\<open>j\<close> is \<^verbatim>\<open>data[(4 + j) * numDetections + i]\<close>.
\<close>

definition classScore :: "jsnum list \<Rightarrow> nat \<Rightarrow> nat \<Rightarrow> nat \<Rightarrow> jsnum" where
  "classScore dat numDetections i j = rd dat ((4 + j) * numDetections + i)"

function scanClasses ::
  "jsnum list \<Rightarrow> nat \<Rightarrow> nat \<Rightarrow> int \<Rightarrow> nat \<Rightarrow> jsnum \<Rightarrow> nat \<Rightarrow> jsnum \<times> nat" where
  "scanClasses dat numDetections i numClasses j maxScore maxClassId =
     (if int j < numClasses then
        (let score = classScore dat numDetections i j in
         if jgt score maxScore
         then scanClasses dat numDetections i numClasses (j + 1) score j
         else scanClasses dat numDetections i numClasses (j + 1) maxScore maxClassId)
      else (maxScore, maxClassId))"
  by pat_completeness auto
termination
  by (relation "measure (\<lambda>(dat, nd, i, nc, j, ms, mc). nat (nc - int j))") auto

declare scanClasses.simps [simp del]

text \<open>\<^verbatim>\<open>Math.max(0, Math.min(1, v))\<close>, the clamp of each corner coordinate.\<close>

definition clamp01 :: "jsnum \<Rightarrow> jsnum" where
  "clamp01 v = jmax (Finite 0) (jmin (Finite 1) v)"

text \<open>
  The body of the outer loop for candidate \<^verbatim>\<open>i\<close> (lines 147 to 177): the detection pushed,
  if one is. \<^verbatim>\<open>classes\<close> stands for the module constant \<^verbatim>\<open>COCO_CLASSES\<close> and
  \<^verbatim>\<open>confidenceThreshold\<close> for the component state the closure reads.
\<close>

definition decodeCandidate ::
  "string list \<Rightarrow> jsnum \<Rightarrow> jsnum list \<Rightarrow> nat \<Rightarrow> int \<Rightarrow> nat \<Rightarrow> detection option" where
  "decodeCandidate classes confidenceThreshold dat numDetections numClasses i =
     (let xCenter = rd dat i;
          yCenter = rd dat (numDetections + i);
          width = rd dat (2 * numDetections + i);
          height = rd dat (3 * numDetections + i);
          (maxScore, maxClassId) = scanClasses dat numDetections i numClasses 0 (Finite 0) 0;
          normalizedScore = jmin (jmax maxScore (Finite 0)) (Finite 1)
      in if jgt normalizedScore confidenceThreshold \<and> maxClassId < length classes then
           (let x1 = clamp01 (jdivc (jsub xCenter (jdivc width 2)) IMG_SIZE);
                y1 = clamp01 (jdivc (jsub yCenter (jdivc height 2)) IMG_SIZE);
                x2 = clamp01 (jdivc (jadd xCenter (jdivc width 2)) IMG_SIZE);
                y2 = clamp01 (jdivc (jadd yCenter (jdivc height 2)) IMG_SIZE)
            in Some \<lparr> classId = maxClassId,
                      score = normalizedScore,
                      bbox = (x1, y1, x2, y2),
                      className = (if classes ! maxClassId = []
                                   then ''Class '' @ showNat maxClassId
                                   else classes ! maxClassId) \<rparr>)
         else None)"

text \<open>The outer loop (line 146): \<^verbatim>\<open>detections\<close> is the array the loop pushes to.\<close>

function decodeLoop ::
  "string list \<Rightarrow> jsnum \<Rightarrow> jsnum list \<Rightarrow> nat \<Rightarrow> int \<Rightarrow> nat \<Rightarrow> detection list
    \<Rightarrow> detection list" where
  "decodeLoop classes confidenceThreshold dat numDetections numClasses i detections =
     (if i < numDetections then
        decodeLoop classes confidenceThreshold dat numDetections numClasses (i + 1)
          (case decodeCandidate classes confidenceThreshold dat numDetections numClasses i of
             Some d \<Rightarrow> detections @ [d]
           | None \<Rightarrow> detections)
      else detections)"
  by pat_completeness auto
termination
  by (relation "measure (\<lambda>(cs, thr, dat, nd, nc, i, ds). nd - i)") auto

declare decodeLoop.simps [simp del]

text \<open>
  \<^verbatim>\<open>processDetections\<close>. The destructuring \<^verbatim>\<open>const [_, numOutputs, numDetections] = dims\<close>
  takes the second and third entries of \<^verbatim>\<open>dims\<close>, whatever its length and first entry. With
  fewer than three entries \<^verbatim>\<open>numDetections\<close> is \<^verbatim>\<open>undefined\<close>, the test
  \<^verbatim>\<open>i < numDetections\<close> is false at once, and the empty array is returned. The function has
  no \<^verbatim>\<open>throw\<close> and no operation that can raise on a tensor, so its result is a plain list.
\<close>

definition processDetections :: "string list \<Rightarrow> jsnum \<Rightarrow> tensor \<Rightarrow> detection list" where
  "processDetections classes confidenceThreshold output =
     (case dims output of
        u # numOutputs # numDetections # rest \<Rightarrow>
          (let numClasses = int numOutputs - 4
           in decodeLoop classes confidenceThreshold (data output) numDetections numClasses 0 [])
      | _ \<Rightarrow> [])"

text \<open>
  The shape contract of the decoder's input: \<^verbatim>\<open>[1, numOutputs, numDetections]\<close> with
  \<^verbatim>\<open>numOutputs >= 5\<close>.
\<close>

definition wellShaped :: "tensor \<Rightarrow> bool" where
  "wellShaped t = (case dims t of [b, numOutputs, numDetections] \<Rightarrow> b = 1 \<and> 5 \<le> numOutputs
                   | _ \<Rightarrow> False)"

section \<open>The preprocessor: preprocessImage\<close>

text \<open>
  \<^verbatim>\<open>preprocessImage\<close> draws the video frame, scaled, into a canvas of \<^verbatim>\<open>IMG_SIZE\<close> by
  \<^verbatim>\<open>IMG_SIZE\<close> pixels and reads the canvas back with \<^verbatim>\<open>getImageData\<close>; both belong to the
  browser. The model starts from what \<^verbatim>\<open>getImageData\<close> returns: \<^verbatim>\<open>pixels\<close>, the bytes of
  the canvas in the order R, G, B, A. The side of the canvas is the parameter \<^verbatim>\<open>sz\<close>
  (128 in the source).

  The quotient \<^verbatim>\<open>pixels[k] / 255.0\<close> is a double, and the store into the
  \<^verbatim>\<open>Float32Array\<close> rounds it to single precision. Both roundings are IEEE 754
  round-to-nearest, ties to even, written out below for a rational argument: precision
  \<^verbatim>\<open>p\<close> bits, exponents from \<^verbatim>\<open>emin\<close> to \<^verbatim>\<open>emax\<close>, gradual underflow, overflow to
  an infinity.
\<close>

definition pow2 :: "int \<Rightarrow> rat" where
  "pow2 k = (if 0 \<le> k then of_int (2 ^ nat k) else 1 / of_int (2 ^ nat (- k)))"

function log2i :: "int \<Rightarrow> int" where
  "log2i n = (if n < 2 then 0 else 1 + log2i (n div 2))"
  by pat_completeness auto
termination
  by (relation "measure nat") auto

declare log2i.simps [simp del]

text \<open>The exponent of a positive rational: the largest \<^verbatim>\<open>k\<close> with \<^verbatim>\<open>2^k <= x\<close>.\<close>

definition ilog2 :: "rat \<Rightarrow> int" where
  "ilog2 x = (let (a, b) = quotient_of x;
                  k = log2i a - log2i b
              in if pow2 k \<le> x then k else k - 1)"

definition roundHalfEven :: "rat \<Rightarrow> int" where
  "roundHalfEven x = (let f = \<lfloor>x\<rfloor>; d = x - of_int f
                      in if d < 1 / 2 then f else if 1 / 2 < d then f + 1
                         else if even f then f else f + 1)"

definition ieeeRound :: "nat \<Rightarrow> int \<Rightarrow> int \<Rightarrow> rat \<Rightarrow> jsnum" where
  "ieeeRound p emin emax x =
     (if x = 0 then Finite 0
      else let e = max (ilog2 \<bar>x\<bar>) emin;
               q = pow2 (e - int p + 1);
               r = of_int (roundHalfEven (x / q)) * q
           in if pow2 (emax + 1) \<le> \<bar>r\<bar> then (if 0 < x then PosInf else NegInf)
              else Finite r)"

definition toDouble :: "rat \<Rightarrow> jsnum" where
  "toDouble = ieeeRound 53 (- 1022) 1023"

definition toFloat32 :: "rat \<Rightarrow> jsnum" where
  "toFloat32 = ieeeRound 24 (- 126) 127"

text \<open>The conversion of a number stored into a \<^verbatim>\<open>Float32Array\<close>.\<close>

definition fround :: "jsnum \<Rightarrow> jsnum" where
  "fround v = (case v of Finite x \<Rightarrow> toFloat32 x | _ \<Rightarrow> v)"

text \<open>
  What an entry of \<^verbatim>\<open>input\<close> holds after \<^verbatim>\<open>input[..] = b / 255.0\<close> for a byte
  \<^verbatim>\<open>b\<close>.
\<close>

definition channelValue :: "8 word \<Rightarrow> jsnum" where
  "channelValue b = fround (toDouble (of_nat (unat b) / 255))"

text \<open>
  \<^verbatim>\<open>pixels[k] / 255.0\<close> as stored: past the end of the buffer \<^verbatim>\<open>pixels[k]\<close> is
  \<^verbatim>\<open>undefined\<close> and the quotient NaN.
\<close>

definition px :: "8 word list \<Rightarrow> nat \<Rightarrow> jsnum" where
  "px pixels k = (if k < length pixels then channelValue (pixels ! k) else NaN)"

text \<open>The loop of lines 124 to 128; \<^verbatim>\<open>inp\<close> is the array \<^verbatim>\<open>input\<close>.\<close>

function fillPlanes :: "nat \<Rightarrow> 8 word list \<Rightarrow> nat \<Rightarrow> jsnum list \<Rightarrow> jsnum list" where
  "fillPlanes sz pixels i inp =
     (if i < sz * sz then
        fillPlanes sz pixels (i + 1)
          (inp[i := px pixels (i * 4),
               sz * sz + i := px pixels (i * 4 + 1),
               2 * sz * sz + i := px pixels (i * 4 + 2)])
      else inp)"
  by pat_completeness auto
termination
  by (relation "measure (\<lambda>(sz, pixels, i, inp). sz * sz - i)") auto

declare fillPlanes.simps [simp del]

text \<open>\<^verbatim>\<open>new Float32Array(3 * IMG_SIZE * IMG_SIZE)\<close> is filled with zeros.\<close>

definition preprocessImage :: "nat \<Rightarrow> 8 word list \<Rightarrow> jsnum list" where
  "preprocessImage sz pixels = fillPlanes sz pixels 0 (replicate (3 * sz * sz) (Finite 0))"

section \<open>The frame counter of the detection loop\<close>

text \<open>
  \<^verbatim>\<open>frameCount\<close> is \<^verbatim>\<open>frameCountRef.current\<close>, \<^verbatim>\<open>fps\<close> the published state.
  \<^verbatim>\<open>startDetection\<close> resets the counter and installs, with \<^verbatim>\<open>setInterval(..., 1)\<close>, a
  callback that publishes the counter, resets it and dispatches \<^verbatim>\<open>detectFrame\<close>;
  \<^verbatim>\<open>detectFrame\<close> increments the counter when its inference call has completed.
\<close>

record loopState =
  frameCount :: nat
  fps :: nat

definition INTERVAL_MS :: nat where
  "INTERVAL_MS = 1"

definition startDetection :: "loopState \<Rightarrow> loopState" where
  "startDetection s = s\<lparr>frameCount := 0\<rparr>"

definition intervalTick :: "loopState \<Rightarrow> loopState" where
  "intervalTick s = s\<lparr>fps := frameCount s, frameCount := 0\<rparr>"

definition cycleCompleted :: "loopState \<Rightarrow> loopState" where
  "cycleCompleted s = s\<lparr>frameCount := frameCount s + 1\<rparr>"

text \<open>
  The state \<^verbatim>\<open>t\<close> milliseconds after \<^verbatim>\<open>startDetection\<close>, when \<^verbatim>\<open>completions k\<close> cycles
  complete during millisecond \<^verbatim>\<open>k\<close>: the interval callback runs at every multiple of
  \<^verbatim>\<open>INTERVAL_MS\<close>.
\<close>

fun runMs :: "(nat \<Rightarrow> nat) \<Rightarrow> nat \<Rightarrow> loopState \<Rightarrow> loopState" where
  "runMs completions 0 s = s"
| "runMs completions (Suc t) s =
     (let s1 = (cycleCompleted ^^ completions t) (runMs completions t s)
      in if Suc t mod INTERVAL_MS = 0 then intervalTick s1 else s1)"

text \<open>The cycles completed during the \<^verbatim>\<open>w\<close> milliseconds before time \<^verbatim>\<open>t\<close>.\<close>

definition completedIn :: "(nat \<Rightarrow> nat) \<Rightarrow> nat \<Rightarrow> nat \<Rightarrow> nat" where
  "completedIn completions t w = sum_list (map completions [t - w..<t])"

section \<open>Vocabulary of the properties\<close>

text \<open>A coordinate or score in the closed interval from 0 to 1.\<close>

definition inUnit :: "jsnum \<Rightarrow> bool" where
  "inUnit v = (jle (Finite 0) v \<and> jle v (Finite 1))"

definition isFinite :: "jsnum \<Rightarrow> bool" where
  "isFinite v = (case v of Finite r \<Rightarrow> True | _ \<Rightarrow> False)"

text \<open>
  For a tensor of at least three dimensions: the entry of box row \<^verbatim>\<open>r\<close> (0 centre x,
  1 centre y, 2 width, 3 height) that the decoder reads for candidate \<^verbatim>\<open>i\<close>,
  \<^verbatim>\<open>data[r * numDetections + i]\<close>, and what the loop body yields for candidate
  \<^verbatim>\<open>i\<close>.
\<close>

definition boxEntry :: "tensor \<Rightarrow> nat \<Rightarrow> nat \<Rightarrow> jsnum" where
  "boxEntry t r i = rd (data t) (r * (dims t ! 2) + i)"

definition candidateOf :: "string list \<Rightarrow> jsnum \<Rightarrow> tensor \<Rightarrow> nat \<Rightarrow> detection option" where
  "candidateOf classes thr t i =
     decodeCandidate classes thr (data t) (dims t ! 2) (int (dims t ! 1) - 4) i"

text \<open>A schedule of completions: one cycle completes every 20 milliseconds.\<close>

definition every20ms :: "nat \<Rightarrow> nat" where
  "every20ms t = (if t mod 20 = 19 then 1 else 0)"

section \<open>Example tensors\<close>

text \<open>
  Two candidates and one class, as in the first example of the specification: scores
  7/8 and 1/4, boxes of 32 by 32 pixels centred in the frame.
\<close>

definition exampleTwo :: tensor where
  "exampleTwo = \<lparr> dims = [1, 5, 2],
     data = [Finite 64, Finite 64, Finite 64, Finite 64, Finite 32, Finite 32,
             Finite 32, Finite 32, Finite (7 / 8), Finite (1 / 4)] \<rparr>"

text \<open>Three rows only: no class row.\<close>

definition malformedRows :: tensor where
  "malformedRows = \<lparr> dims = [1, 3, 2],
     data = [Finite 1, Finite 2, Finite 3, Finite 4, Finite 5, Finite 6] \<rparr>"

text \<open>Four dimensions, one candidate with score 7/8.\<close>

definition rankFour :: tensor where
  "rankFour = \<lparr> dims = [1, 5, 1, 1],
     data = [Finite 64, Finite 64, Finite 32, Finite 32, Finite (7 / 8)] \<rparr>"

text \<open>One candidate whose raw width is negative.\<close>

definition negativeWidth :: tensor where
  "negativeWidth = \<lparr> dims = [1, 5, 1],
     data = [Finite 64, Finite 64, Finite (- 64), Finite 32, Finite (7 / 8)] \<rparr>"

text \<open>
  Two candidates: the first has a negative raw width and score 1/4, the second a width of
  32 and score 7/8.
\<close>

definition mixedWidths :: tensor where
  "mixedWidths = \<lparr> dims = [1, 5, 2],
     data = [Finite 64, Finite 64, Finite 64, Finite 64, Finite (- 64), Finite 32,
             Finite 32, Finite 32, Finite (1 / 4), Finite (7 / 8)] \<rparr>"

text \<open>One candidate whose centre abscissa and width are both infinite.\<close>

definition infiniteBox :: tensor where
  "infiniteBox = \<lparr> dims = [1, 5, 1],
     data = [PosInf, Finite 64, PosInf, Finite 32, Finite (7 / 8)] \<rparr>"

text \<open>One candidate, two classes, both scores negative.\<close>

definition negativeScores :: tensor where
  "negativeScores = \<lparr> dims = [1, 6, 1],
     data = [Finite 64, Finite 64, Finite 32, Finite 32, Finite (- 1 / 2), Finite (- 1 / 4)] \<rparr>"

text \<open>One candidate, three classes with scores 1/4, 3/4 and 1/2.\<close>

definition threeClasses :: tensor where
  "threeClasses = \<lparr> dims = [1, 7, 1],
     data = [Finite 64, Finite 64, Finite 32, Finite 32,
             Finite (1 / 4), Finite (3 / 4), Finite (1 / 2)] \<rparr>"

text \<open>One candidate, three classes; the last two share the maximum, 3/4 or 0.\<close>

definition tiePositive :: tensor where
  "tiePositive = \<lparr> dims = [1, 7, 1],
     data = [Finite 64, Finite 64, Finite 32, Finite 32,
             Finite (1 / 4), Finite (3 / 4), Finite (3 / 4)] \<rparr>"

definition tieAtZero :: tensor where
  "tieAtZero = \<lparr> dims = [1, 7, 1],
     data = [Finite 64, Finite 64, Finite 32, Finite 32, Finite (- 1), Finite 0, Finite 0] \<rparr>"

text \<open>Two candidates, one class, every entry zero.\<close>

definition allZero :: tensor where
  "allZero = \<lparr> dims = [1, 5, 2], data = replicate 10 (Finite 0) \<rparr>"

section \<open>The order of JavaScript numbers\<close>

lemma jgt_NaN_right [simp]: "\<not> jgt a NaN"
  by (cases a) simp_all

lemma jgt_irrefl [simp]: "\<not> jgt a a"
  by (cases a) simp_all

lemma jgt_trans: "jgt a b \<Longrightarrow> jgt b c \<Longrightarrow> jgt a c"
  by (cases a; cases b; cases c) simp_all

lemma jgt_asym: "jgt a b \<Longrightarrow> \<not> jgt b a"
  by (cases a; cases b) simp_all

lemma jgt_total: "a \<noteq> NaN \<Longrightarrow> b \<noteq> NaN \<Longrightarrow> jgt a b \<or> a = b \<or> jgt b a"
  by (cases a; cases b) auto

lemma jgt_jle_trans: "jgt a b \<Longrightarrow> jle c b \<Longrightarrow> jgt a c"
  by (auto simp: jle_def intro: jgt_trans)

lemma jle_not_jgt: "jle a b \<Longrightarrow> \<not> jgt a b"
  by (auto simp: jle_def dest: jgt_asym)

lemma jgt_below: "jgt b a \<Longrightarrow> \<not> jgt b r \<Longrightarrow> r \<noteq> NaN \<Longrightarrow> \<not> jgt a r"
  by (cases a; cases b; cases r) auto

lemma jgt_above: "\<not> jgt a m \<Longrightarrow> \<not> jgt m r \<Longrightarrow> m \<noteq> NaN \<Longrightarrow> \<not> jgt a r"
  by (cases a; cases m; cases r) auto

section \<open>The loops of the decoder\<close>

text \<open>The outer loop pushes the detections of the candidates in index order.\<close>

lemma decodeLoop_eq:
  "decodeLoop cs thr dat nd nc i acc =
     acc @ List.map_filter (decodeCandidate cs thr dat nd nc) [i..<nd]"
proof (induction cs thr dat nd nc i acc rule: decodeLoop.induct)
  case (1 cs thr dat nd nc i acc)
  show ?case
  proof (cases "i < nd")
    case True
    then have "[i..<nd] = i # [i + 1..<nd]"
      by (simp add: upt_conv_Cons)
    with True "1.IH" show ?thesis
      by (subst decodeLoop.simps) (simp add: List.map_filter_simps split: option.split)
  next
    case False
    then show ?thesis
      by (subst decodeLoop.simps) (simp add: List.map_filter_simps)
  qed
qed

lemma set_map_filter: "set (List.map_filter f xs) = {y. \<exists>x \<in> set xs. f x = Some y}"
  by (induction xs) (auto simp: List.map_filter_simps split: option.splits)

lemma processDetections_dims:
  "dims t = u # no # nd # rest \<Longrightarrow>
     processDetections cs thr t =
       List.map_filter (decodeCandidate cs thr (data t) nd (int no - 4)) [0..<nd]"
  by (simp add: processDetections_def decodeLoop_eq)

lemma processDetections_short:
  "length (dims t) < 3 \<Longrightarrow> processDetections cs thr t = []"
  by (auto simp: processDetections_def split: list.splits)

lemma processDetections_mem:
  "d \<in> set (processDetections cs thr t) \<longleftrightarrow>
     (\<exists>u no nd rest i. dims t = u # no # nd # rest \<and> i < nd \<and>
        decodeCandidate cs thr (data t) nd (int no - 4) i = Some d)"
proof (cases "length (dims t) < 3")
  case True
  then have "\<nexists>u no nd rest. dims t = u # no # nd # rest" by auto
  with True show ?thesis by (simp add: processDetections_short)
next
  case False
  then obtain u r1 where a: "dims t = u # r1" by (cases "dims t") auto
  with False obtain no r2 where b: "r1 = no # r2" by (cases r1) auto
  with a False obtain nd rest where c: "r2 = nd # rest" by (cases r2) auto
  from a b c have d: "dims t = u # no # nd # rest" by simp
  show ?thesis
    by (auto simp: processDetections_dims [OF d] set_map_filter d)
qed

text \<open>
  The class scan. The running maximum starts at a number and stays one; at the end no
  score of a scanned row exceeds it; and either nothing was selected, or the selected row
  is the first one that holds the final maximum, which exceeds the starting value.
\<close>

lemma scan_notNaN:
  "ms \<noteq> NaN \<Longrightarrow> fst (scanClasses dat nd i nc j ms mc) \<noteq> NaN"
proof (induction dat nd i nc j ms mc rule: scanClasses.induct)
  case (1 dat nd i nc j ms mc)
  show ?case
  proof (cases "int j < nc")
    case True
    show ?thesis
    proof (cases "jgt (classScore dat nd i j) ms")
      case g: True
      then have "classScore dat nd i j \<noteq> NaN" by auto
      with True g "1.IH"(1) show ?thesis
        by (subst scanClasses.simps) simp
    next
      case g: False
      with True "1.IH"(2) "1.prems" show ?thesis
        by (subst scanClasses.simps) simp
    qed
  next
    case False
    with "1.prems" show ?thesis
      by (subst scanClasses.simps) simp
  qed
qed

lemma scan_upper:
  "ms \<noteq> NaN \<Longrightarrow>
     \<not> jgt ms (fst (scanClasses dat nd i nc j ms mc)) \<and>
     (\<forall>k. j \<le> k \<and> int k < nc \<longrightarrow>
        \<not> jgt (classScore dat nd i k) (fst (scanClasses dat nd i nc j ms mc)))"
proof (induction dat nd i nc j ms mc rule: scanClasses.induct)
  case (1 dat nd i nc j ms mc)
  let ?s = "classScore dat nd i j"
  let ?r = "fst (scanClasses dat nd i nc j ms mc)"
  have rn: "?r \<noteq> NaN" using "1.prems" by (rule scan_notNaN)
  show ?case
  proof (cases "int j < nc")
    case True
    show ?thesis
    proof (cases "jgt ?s ms")
      case g: True
      then have sn: "?s \<noteq> NaN" by auto
      have eq: "scanClasses dat nd i nc j ms mc = scanClasses dat nd i nc (j + 1) ?s j"
        using True g by (subst scanClasses.simps) simp
      from "1.IH"(1) [OF True refl g sn]
      have a: "\<not> jgt ?s ?r"
        and b: "\<forall>k. j + 1 \<le> k \<and> int k < nc \<longrightarrow> \<not> jgt (classScore dat nd i k) ?r"
        by (simp_all add: eq)
      from g a rn have "\<not> jgt ms ?r" by (rule jgt_below)
      moreover have "\<not> jgt (classScore dat nd i k) ?r" if "j \<le> k" "int k < nc" for k
      proof (cases "k = j")
        case True
        with a show ?thesis by simp
      next
        case False
        with that b show ?thesis by simp
      qed
      ultimately show ?thesis by blast
    next
      case g: False
      have eq: "scanClasses dat nd i nc j ms mc = scanClasses dat nd i nc (j + 1) ms mc"
        using True g by (subst scanClasses.simps) simp
      from "1.IH"(2) [OF True refl g "1.prems"]
      have a: "\<not> jgt ms ?r"
        and b: "\<forall>k. j + 1 \<le> k \<and> int k < nc \<longrightarrow> \<not> jgt (classScore dat nd i k) ?r"
        by (simp_all add: eq)
      have "\<not> jgt (classScore dat nd i k) ?r" if "j \<le> k" "int k < nc" for k
      proof (cases "k = j")
        case True
        from g a "1.prems" have "\<not> jgt ?s ?r" by (rule jgt_above)
        with True show ?thesis by simp
      next
        case False
        with that b show ?thesis by simp
      qed
      with a show ?thesis by blast
    qed
  next
    case False
    then have "scanClasses dat nd i nc j ms mc = (ms, mc)"
      by (subst scanClasses.simps) simp
    moreover from False have "\<not> (j \<le> k \<and> int k < nc)" for k by linarith
    ultimately show ?thesis by auto
  qed
qed

lemma scan_choice:
  "scanClasses dat nd i nc j ms mc = (ms', mc') \<Longrightarrow>
     (ms' = ms \<and> mc' = mc) \<or>
     (j \<le> mc' \<and> int mc' < nc \<and> classScore dat nd i mc' = ms' \<and> jgt ms' ms \<and>
      (\<forall>k. j \<le> k \<and> k < mc' \<longrightarrow> classScore dat nd i k \<noteq> ms'))"
proof (induction dat nd i nc j ms mc rule: scanClasses.induct)
  case (1 dat nd i nc j ms mc)
  let ?s = "classScore dat nd i j"
  show ?case
  proof (cases "int j < nc")
    case True
    show ?thesis
    proof (cases "jgt ?s ms")
      case g: True
      have "scanClasses dat nd i nc (j + 1) ?s j = (ms', mc')"
        using True g "1.prems" by (subst (asm) scanClasses.simps) simp
      from "1.IH"(1) [OF True refl g this]
      show ?thesis
      proof
        assume "ms' = ?s \<and> mc' = j"
        with True g show ?thesis by auto
      next
        assume h: "j + 1 \<le> mc' \<and> int mc' < nc \<and> classScore dat nd i mc' = ms' \<and> jgt ms' ?s \<and>
          (\<forall>k. j + 1 \<le> k \<and> k < mc' \<longrightarrow> classScore dat nd i k \<noteq> ms')"
        then have "jgt ms' ms" using g by (blast intro: jgt_trans)
        moreover have "classScore dat nd i k \<noteq> ms'" if "j \<le> k" "k < mc'" for k
        proof (cases "k = j")
          case True
          from h have "jgt ms' ?s" by simp
          then have "?s \<noteq> ms'" by auto
          with True show ?thesis by simp
        next
          case False
          with that h show ?thesis by simp
        qed
        ultimately show ?thesis using h by auto
      qed
    next
      case g: False
      have "scanClasses dat nd i nc (j + 1) ms mc = (ms', mc')"
        using True g "1.prems" by (subst (asm) scanClasses.simps) simp
      from "1.IH"(2) [OF True refl g this]
      show ?thesis
      proof
        assume "ms' = ms \<and> mc' = mc"
        then show ?thesis by simp
      next
        assume h: "j + 1 \<le> mc' \<and> int mc' < nc \<and> classScore dat nd i mc' = ms' \<and> jgt ms' ms \<and>
          (\<forall>k. j + 1 \<le> k \<and> k < mc' \<longrightarrow> classScore dat nd i k \<noteq> ms')"
        have "classScore dat nd i k \<noteq> ms'" if "j \<le> k" "k < mc'" for k
        proof (cases "k = j")
          case True
          from h g have "?s \<noteq> ms'" by auto
          with True show ?thesis by simp
        next
          case False
          with that h show ?thesis by simp
        qed
        with h show ?thesis by auto
      qed
    qed
  next
    case False
    with "1.prems" have "ms' = ms \<and> mc' = mc"
      by (subst (asm) scanClasses.simps) simp
    then show ?thesis by simp
  qed
qed

lemma scan_none:
  "(\<forall>k. j \<le> k \<and> int k < nc \<longrightarrow> \<not> jgt (classScore dat nd i k) ms) \<Longrightarrow>
     scanClasses dat nd i nc j ms mc = (ms, mc)"
proof (induction dat nd i nc j ms mc rule: scanClasses.induct)
  case (1 dat nd i nc j ms mc)
  show ?case
  proof (cases "int j < nc")
    case True
    with "1.prems" have g: "\<not> jgt (classScore dat nd i j) ms" by simp
    have "scanClasses dat nd i nc (j + 1) ms mc = (ms, mc)"
      using "1.IH"(2) [OF True refl g] "1.prems" by simp
    with True g show ?thesis
      by (subst scanClasses.simps) simp
  next
    case False
    then show ?thesis
      by (subst scanClasses.simps) simp
  qed
qed

section \<open>The preprocessor's loop\<close>

lemma length_fillPlanes: "length (fillPlanes sz pixels i inp) = length inp"
proof (induction sz pixels i inp rule: fillPlanes.induct)
  case (1 sz pixels i inp)
  show ?case
  proof (cases "i < sz * sz")
    case True
    with "1.IH" show ?thesis by (subst fillPlanes.simps) simp
  next
    case False
    then show ?thesis by (subst fillPlanes.simps) simp
  qed
qed


section \<open>The frame counter\<close>

lemma block20: "sum_list (map every20ms [20 * n..<20 * n + 20]) = 1"
proof -
  have "[20 * n..<20 * n + 20] = map (\<lambda>k. k + 20 * n) [0..<20]"
    by (simp add: map_add_upt add.commute)
  then have "map every20ms [20 * n..<20 * n + 20] = map every20ms [0..<20]"
    by (simp add: every20ms_def)
  moreover have "sum_list (map every20ms [0..<20]) = 1"
    by code_simp
  ultimately show ?thesis by simp
qed

lemma sum20: "sum_list (map every20ms [0..<20 * n]) = n"
proof (induction n)
  case 0
  then show ?case by simp
next
  case (Suc n)
  have "[0..<20 * Suc n] = [0..<20 * n] @ [20 * n..<20 * n + 20]"
    using upt_add_eq_append [of 0 "20 * n" 20] by (simp add: add.commute)
  with Suc block20 show ?case by simp
qed


lemma funpow_cycleCompleted:
  "(cycleCompleted ^^ n) s = s\<lparr>frameCount := frameCount s + n\<rparr>"
  by (induction n) (simp_all add: cycleCompleted_def)

lemma frameCount_runMs:
  "frameCount (runMs c t s) = (if t = 0 then frameCount s else 0)"
  by (cases t) (simp_all add: INTERVAL_MS_def intervalTick_def Let_def)

lemma fps_runMs:
  "fps (runMs c (Suc t) s) = (if t = 0 then frameCount s else 0) + c t"
  by (simp add: INTERVAL_MS_def intervalTick_def Let_def funpow_cycleCompleted frameCount_runMs)

section \<open>Properties of the decoder\<close>

text \<open>What an accepted candidate looks like.\<close>

lemma decodeCandidate_Some:
  assumes "decodeCandidate cs thr dat nd nc i = Some d"
  obtains ms mc where "scanClasses dat nd i nc 0 (Finite 0) 0 = (ms, mc)"
    and "classId d = mc" and "score d = jmin (jmax ms (Finite 0)) (Finite 1)"
    and "jgt (score d) thr" and "mc < length cs"
    and "bbox d = (clamp01 (jdivc (jsub (rd dat i) (jdivc (rd dat (2 * nd + i)) 2)) IMG_SIZE),
                   clamp01 (jdivc (jsub (rd dat (nd + i)) (jdivc (rd dat (3 * nd + i)) 2)) IMG_SIZE),
                   clamp01 (jdivc (jadd (rd dat i) (jdivc (rd dat (2 * nd + i)) 2)) IMG_SIZE),
                   clamp01 (jdivc (jadd (rd dat (nd + i)) (jdivc (rd dat (3 * nd + i)) 2)) IMG_SIZE))"
proof -
  obtain ms mc where s: "scanClasses dat nd i nc 0 (Finite 0) 0 = (ms, mc)"
    by (cases "scanClasses dat nd i nc 0 (Finite 0) 0")
  from assms s have g: "jgt (jmin (jmax ms (Finite 0)) (Finite 1)) thr \<and> mc < length cs"
    by (simp add: decodeCandidate_def Let_def split: if_splits)
  with assms s have "classId d = mc" "score d = jmin (jmax ms (Finite 0)) (Finite 1)"
    "bbox d = (clamp01 (jdivc (jsub (rd dat i) (jdivc (rd dat (2 * nd + i)) 2)) IMG_SIZE),
                   clamp01 (jdivc (jsub (rd dat (nd + i)) (jdivc (rd dat (3 * nd + i)) 2)) IMG_SIZE),
                   clamp01 (jdivc (jadd (rd dat i) (jdivc (rd dat (2 * nd + i)) 2)) IMG_SIZE),
                   clamp01 (jdivc (jadd (rd dat (nd + i)) (jdivc (rd dat (3 * nd + i)) 2)) IMG_SIZE))"
    by (auto simp: decodeCandidate_def Let_def)
  with s g that show thesis by simp
qed

lemma clampScore_inUnit: "ms \<noteq> NaN \<Longrightarrow> inUnit (jmin (jmax ms (Finite 0)) (Finite 1))"
  by (cases ms) (auto simp: inUnit_def jmin_def jmax_def jle_def)

lemma wellShaped_dims:
  assumes "wellShaped t"
  obtains no nd where "dims t = [1, no, nd]" and "5 \<le> no"
  using assms by (auto simp: wellShaped_def split: list.splits)

text \<open>
  C3. For a well-shaped output tensor, every detection returned has a score strictly above
  the confidence threshold and at most 1, and a class id below
  \<^verbatim>\<open>numClasses = numOutputs - 4\<close> (it is a natural number, so at least 0).
\<close>

theorem detections_score_and_class:
  assumes "wellShaped t" and "d \<in> set (processDetections classes thr t)"
  shows "jgt (score d) thr \<and> jle (score d) (Finite 1) \<and>
         int (classId d) < int (dims t ! 1) - 4"
proof -
  from assms(1) obtain no nd where dm: "dims t = [1, no, nd]" and no: "5 \<le> no"
    by (rule wellShaped_dims)
  from assms(2) dm obtain i where "i < nd"
    and c: "decodeCandidate classes thr (data t) nd (int no - 4) i = Some d"
    by (auto simp: processDetections_mem)
  from c obtain ms mc where s: "scanClasses (data t) nd i (int no - 4) 0 (Finite 0) 0 = (ms, mc)"
    and cid: "classId d = mc" and sc: "score d = jmin (jmax ms (Finite 0)) (Finite 1)"
    and acc: "jgt (score d) thr"
    by (rule decodeCandidate_Some)
  have "ms \<noteq> NaN"
    using scan_notNaN [of "Finite 0" "data t" nd i "int no - 4" 0 0] s by simp
  then have "inUnit (score d)" unfolding sc by (rule clampScore_inUnit)
  then have le1: "jle (score d) (Finite 1)" by (simp add: inUnit_def)
  from scan_choice [OF s] no have "int mc < int no - 4" by auto
  with acc le1 cid dm show ?thesis by simp
qed

lemma exampleTwo_half:
  "processDetections COCO_CLASSES (Finite (1 / 2)) exampleTwo =
     [\<lparr> classId = 0, score = Finite (7 / 8),
        bbox = (Finite (3 / 8), Finite (3 / 8), Finite (5 / 8), Finite (5 / 8)),
        className = ''angry'' \<rparr>]"
  by (simp add: exampleTwo_def processDetections_def decodeLoop.simps decodeCandidate_def
      scanClasses.simps classScore_def rd_def clamp01_def jmax_def jmin_def IMG_SIZE_def
      COCO_CLASSES_def)

theorem detections_score_and_class_witness:
  "wellShaped exampleTwo \<and>
   \<lparr> classId = 0, score = Finite (7 / 8),
     bbox = (Finite (3 / 8), Finite (3 / 8), Finite (5 / 8), Finite (5 / 8)),
     className = ''angry'' \<rparr> \<in> set (processDetections COCO_CLASSES (Finite (1 / 2)) exampleTwo) \<and>
   jgt (Finite (7 / 8)) (Finite (1 / 2)) \<and> jle (Finite (7 / 8)) (Finite 1) \<and>
   int 0 < int (dims exampleTwo ! 1) - 4"
proof -
  have h1: "wellShaped exampleTwo"
    by (simp add: wellShaped_def exampleTwo_def)
  have h2: "\<lparr> classId = 0, score = Finite (7 / 8),
     bbox = (Finite (3 / 8), Finite (3 / 8), Finite (5 / 8), Finite (5 / 8)),
     className = ''angry'' \<rparr> \<in> set (processDetections COCO_CLASSES (Finite (1 / 2)) exampleTwo)"
    by (simp add: exampleTwo_half)
  show ?thesis
    using h1 h2 detections_score_and_class [OF h1 h2] by simp
qed

lemma length_map_filter_mono:
  "(\<And>x. f x \<noteq> None \<Longrightarrow> g x \<noteq> None) \<Longrightarrow>
     length (List.map_filter f xs) \<le> length (List.map_filter g xs)"
proof (induction xs)
  case Nil
  then show ?case by (simp add: List.map_filter_simps)
next
  case (Cons x xs)
  have ih: "length (List.map_filter f xs) \<le> length (List.map_filter g xs)"
    using Cons by blast
  have "f x \<noteq> None \<Longrightarrow> g x \<noteq> None"
    by (rule Cons.prems)
  with ih show ?case
    by (cases "f x"; cases "g x") (simp_all add: List.map_filter_simps)
qed

lemma decodeCandidate_threshold:
  assumes "jle t1 t2" and "decodeCandidate cs t2 dat nd nc i \<noteq> None"
  shows "decodeCandidate cs t1 dat nd nc i \<noteq> None"
proof -
  obtain ms mc where s: "scanClasses dat nd i nc 0 (Finite 0) 0 = (ms, mc)"
    by (cases "scanClasses dat nd i nc 0 (Finite 0) 0")
  from assms(2) s have "jgt (jmin (jmax ms (Finite 0)) (Finite 1)) t2" and m: "mc < length cs"
    by (auto simp: decodeCandidate_def Let_def split: if_splits)
  then have "jgt (jmin (jmax ms (Finite 0)) (Finite 1)) t1"
    using assms(1) by (blast intro: jgt_jle_trans)
  with m s show ?thesis
    by (simp add: decodeCandidate_def Let_def)
qed

text \<open>
  C5. For a fixed output tensor and class table, raising the confidence threshold never
  increases the number of detections returned.
\<close>

theorem threshold_monotone:
  assumes "jle t1 t2"
  shows "length (processDetections classes t2 t) \<le> length (processDetections classes t1 t)"
proof (cases "dims t")
  case Nil
  then show ?thesis by (simp add: processDetections_def)
next
  case (Cons u r1)
  show ?thesis
  proof (cases r1)
    case Nil
    with Cons show ?thesis by (simp add: processDetections_def)
  next
    case c2: (Cons no r2)
    show ?thesis
    proof (cases r2)
      case Nil
      with Cons c2 show ?thesis by (simp add: processDetections_def)
    next
      case c3: (Cons nd rest)
      with Cons c2 have d: "dims t = u # no # nd # rest" by simp
      show ?thesis
        unfolding processDetections_dims [OF d]
        by (rule length_map_filter_mono) (rule decodeCandidate_threshold [OF assms])
    qed
  qed
qed

lemma exampleTwo_eighth:
  "length (processDetections COCO_CLASSES (Finite (1 / 8)) exampleTwo) = 2"
  by (simp add: exampleTwo_def processDetections_def decodeLoop.simps decodeCandidate_def
      scanClasses.simps classScore_def rd_def clamp01_def jmax_def jmin_def IMG_SIZE_def
      COCO_CLASSES_def)

theorem threshold_monotone_witness:
  "jle (Finite (1 / 8)) (Finite (1 / 2)) \<and>
   length (processDetections COCO_CLASSES (Finite (1 / 2)) exampleTwo) = 1 \<and>
   length (processDetections COCO_CLASSES (Finite (1 / 8)) exampleTwo) = 2 \<and>
   length (processDetections COCO_CLASSES (Finite (1 / 2)) exampleTwo)
     \<le> length (processDetections COCO_CLASSES (Finite (1 / 8)) exampleTwo)"
proof -
  have h: "jle (Finite (1 / 8)) (Finite (1 / 2))"
    by (simp add: jle_def)
  show ?thesis
    using h threshold_monotone [OF h, of COCO_CLASSES exampleTwo]
    by (simp add: exampleTwo_half exampleTwo_eighth)
qed

text \<open>
  A column without a positive class score: the scan keeps its initial values, score 0 and
  class 0, and the candidate is accepted only below a negative threshold.
\<close>

lemma scan_noPositive:
  assumes "\<And>k. int k < nc \<Longrightarrow> \<not> jgt (classScore dat nd i k) (Finite 0)"
  shows "scanClasses dat nd i nc 0 (Finite 0) 0 = (Finite 0, 0)"
  by (rule scan_none) (simp add: assms)

lemma decodeCandidate_noPositive:
  assumes "\<And>k. int k < nc \<Longrightarrow> \<not> jgt (classScore dat nd i k) (Finite 0)"
    and "decodeCandidate cs thr dat nd nc i = Some d"
  shows "score d = Finite 0 \<and> classId d = 0 \<and> jgt (Finite 0) thr"
proof -
  from assms(2) obtain ms mc where s: "scanClasses dat nd i nc 0 (Finite 0) 0 = (ms, mc)"
    and f: "classId d = mc" "score d = jmin (jmax ms (Finite 0)) (Finite 1)" "jgt (score d) thr"
    by (rule decodeCandidate_Some)
  from s scan_noPositive [of nc dat nd i] assms(1) have "ms = Finite 0" "mc = 0"
    by simp_all
  with f show ?thesis by (simp add: jmin_def jmax_def)
qed

lemma decodeCandidate_noPositive_None:
  assumes "\<And>k. int k < nc \<Longrightarrow> \<not> jgt (classScore dat nd i k) (Finite 0)"
    and "jle (Finite 0) thr"
  shows "decodeCandidate cs thr dat nd nc i = None"
proof (cases "decodeCandidate cs thr dat nd nc i")
  case None
  then show ?thesis .
next
  case (Some d)
  from decodeCandidate_noPositive [OF assms(1) Some] have "jgt (Finite 0) thr"
    by simp
  with assms(2) show ?thesis by (simp add: jle_not_jgt)
qed

lemma map_filter_all_None: "(\<And>x. x \<in> set xs \<Longrightarrow> f x = None) \<Longrightarrow> List.map_filter f xs = []"
  by (induction xs) (simp_all add: List.map_filter_simps)

text \<open>
  C8. For a well-shaped output tensor whose entries are all zero and a confidence
  threshold of at least zero, the decoder returns no detection.
\<close>

theorem all_zero_no_detections:
  assumes "wellShaped t" and "\<forall>x \<in> set (data t). x = Finite 0" and "jle (Finite 0) thr"
  shows "processDetections classes thr t = []"
proof -
  from assms(1) obtain no nd where dm: "dims t = [1, no, nd]"
    by (rule wellShaped_dims)
  have r: "rd (data t) k = Finite 0 \<or> rd (data t) k = NaN" for k
  proof (cases "k < length (data t)")
    case True
    then have "data t ! k \<in> set (data t)" by (rule nth_mem)
    with assms(2) have "data t ! k = Finite 0" by blast
    with True show ?thesis by (simp add: rd_def)
  next
    case False
    then show ?thesis by (simp add: rd_def)
  qed
  have z: "\<not> jgt (classScore (data t) nd i k) (Finite 0)" for i k
    using r [of "(4 + k) * nd + i"] by (auto simp: classScore_def)
  have "decodeCandidate classes thr (data t) nd (int no - 4) i = None" for i
    by (rule decodeCandidate_noPositive_None) (simp_all add: z assms(3))
  then show ?thesis
    by (simp add: processDetections_dims [OF dm] map_filter_all_None)
qed

theorem all_zero_no_detections_witness:
  "wellShaped allZero \<and> set (data allZero) = {Finite 0} \<and>
   jle (Finite 0) (Finite (1 / 2)) \<and>
   processDetections COCO_CLASSES (Finite (1 / 2)) allZero = []"
proof -
  have h1: "wellShaped allZero"
    by (simp add: wellShaped_def allZero_def)
  have h2: "\<forall>x \<in> set (data allZero). x = Finite 0"
    by (simp add: allZero_def)
  have h3: "jle (Finite 0) (Finite (1 / 2))"
    by (simp add: jle_def)
  have h4: "set (data allZero) = {Finite 0}"
    by (simp add: allZero_def)
  show ?thesis
    using h1 h3 h4 all_zero_no_detections [OF h1 h2 h3, of COCO_CLASSES] by simp
qed

text \<open>
  C1, as the code has it. The decoder does not examine the shape. It returns no detection,
  and raises nothing, when \<^verbatim>\<open>dims\<close> has fewer than three entries or when \<^verbatim>\<open>numOutputs\<close>
  is below 5, provided the confidence threshold is at least zero. (A tensor of another
  rank or with another first dimension is decoded from its second and third dimensions.)
\<close>

theorem too_few_rows_no_detections:
  assumes "length (dims t) < 3 \<or> dims t ! 1 < 5" and "jle (Finite 0) thr"
  shows "processDetections classes thr t = []"
proof (cases "length (dims t) < 3")
  case True
  then show ?thesis by (rule processDetections_short)
next
  case False
  then obtain u r1 where a: "dims t = u # r1" by (cases "dims t") auto
  with False obtain no r2 where b: "r1 = no # r2" by (cases r1) auto
  with a False obtain nd rest where c: "r2 = nd # rest" by (cases r2) auto
  from a b c have dm: "dims t = u # no # nd # rest" by simp
  with assms(1) False have "no < 5" by simp
  then have "decodeCandidate classes thr (data t) nd (int no - 4) i = None" for i
    by (intro decodeCandidate_noPositive_None assms(2)) simp
  then show ?thesis
    by (simp add: processDetections_dims [OF dm] map_filter_all_None)
qed

theorem too_few_rows_no_detections_witness:
  "(length (dims malformedRows) < 3 \<or> dims malformedRows ! 1 < 5) \<and>
   jle (Finite 0) (Finite (1 / 2)) \<and>
   processDetections COCO_CLASSES (Finite (1 / 2)) malformedRows = []"
proof -
  have h1: "length (dims malformedRows) < 3 \<or> dims malformedRows ! 1 < 5"
    by (simp add: malformedRows_def)
  have h2: "jle (Finite 0) (Finite (1 / 2))"
    by (simp add: jle_def)
  show ?thesis
    using h1 h2 too_few_rows_no_detections [OF h1 h2, of COCO_CLASSES] by simp
qed

text \<open>
  The claim as stated fails: a tensor of four dimensions is not of the contract's shape,
  and its candidate is returned; and the three-row tensor of the specification's example
  yields two detections when the threshold is negative.
\<close>

theorem malformed_shape_counterexample:
  "\<not> wellShaped rankFour \<and>
   processDetections COCO_CLASSES (Finite (1 / 2)) rankFour =
     [\<lparr> classId = 0, score = Finite (7 / 8),
        bbox = (Finite (3 / 8), Finite (3 / 8), Finite (5 / 8), Finite (5 / 8)),
        className = ''angry'' \<rparr>] \<and>
   \<not> wellShaped malformedRows \<and>
   length (processDetections COCO_CLASSES (Finite (- 1)) malformedRows) = 2"
  by (simp add: wellShaped_def rankFour_def malformedRows_def processDetections_def
      decodeLoop.simps decodeCandidate_def scanClasses.simps classScore_def rd_def clamp01_def
      jmax_def jmin_def IMG_SIZE_def COCO_CLASSES_def Let_def)

text \<open>The corners of a box: clamping is monotone and lands in the unit interval.\<close>

lemma clamp01_inUnit: "v \<noteq> NaN \<Longrightarrow> inUnit (clamp01 v)"
  by (cases v) (auto simp: clamp01_def inUnit_def jmax_def jmin_def jle_def)

lemma clamp01_mono: "jle a b \<Longrightarrow> jle (clamp01 a) (clamp01 b)"
  by (cases a; cases b) (auto simp: clamp01_def jmax_def jmin_def jle_def)

lemma clamp01_NaN [simp]: "clamp01 v = NaN \<longleftrightarrow> v = NaN"
  by (cases v) (auto simp: clamp01_def jmax_def jmin_def)

lemma jdivc_NaN [simp]: "jdivc v c = NaN \<longleftrightarrow> v = NaN"
  by (cases v) simp_all

lemma corner_range: "clamp01 v = NaN \<or> inUnit (clamp01 v)"
  using clamp01_inUnit [of v] by (cases "v = NaN") simp_all

lemma corners_defined:
  assumes "isFinite c" and "isFinite w"
  shows "jsub c (jdivc w 2) \<noteq> NaN" and "jadd c (jdivc w 2) \<noteq> NaN"
  using assms by (cases c; cases w; simp add: isFinite_def)+

lemma corners_ordered:
  assumes "jle (Finite 0) w"
    and "jsub c (jdivc w 2) \<noteq> NaN" and "jadd c (jdivc w 2) \<noteq> NaN"
  shows "jle (clamp01 (jdivc (jsub c (jdivc w 2)) IMG_SIZE))
             (clamp01 (jdivc (jadd c (jdivc w 2)) IMG_SIZE))"
proof -
  have "jle (jdivc (jsub c (jdivc w 2)) IMG_SIZE) (jdivc (jadd c (jdivc w 2)) IMG_SIZE)"
    using assms by (cases c; cases w) (auto simp: jle_def IMG_SIZE_def divide_right_mono)
  then show ?thesis by (rule clamp01_mono)
qed

text \<open>
  C2, as the code has it. Each corner coordinate is clamped on its own, and the corners of
  a detection depend on the four box entries of its own candidate only. Every coordinate
  of every detection is NaN or lies between 0 and 1. For the candidate that yields the
  detection: the abscissas are not NaN when its centre x and width are finite, the
  ordinates when its centre y and height are; \<^verbatim>\<open>x1 <= x2\<close> holds when its raw width is
  at least 0 and neither abscissa is NaN, and \<^verbatim>\<open>y1 <= y2\<close> when its raw height is at
  least 0 and neither ordinate is NaN.
\<close>

theorem bbox_clamped_and_ordered:
  assumes "d \<in> set (processDetections classes thr t)"
    and "bbox d = (x1, y1, x2, y2)"
  shows "(x1 = NaN \<or> inUnit x1) \<and> (y1 = NaN \<or> inUnit y1) \<and>
         (x2 = NaN \<or> inUnit x2) \<and> (y2 = NaN \<or> inUnit y2) \<and>
         (\<exists>i < dims t ! 2. candidateOf classes thr t i = Some d) \<and>
         (\<forall>i < dims t ! 2. candidateOf classes thr t i = Some d \<longrightarrow>
            (isFinite (boxEntry t 0 i) \<and> isFinite (boxEntry t 2 i)
               \<longrightarrow> x1 \<noteq> NaN \<and> x2 \<noteq> NaN) \<and>
            (isFinite (boxEntry t 1 i) \<and> isFinite (boxEntry t 3 i)
               \<longrightarrow> y1 \<noteq> NaN \<and> y2 \<noteq> NaN) \<and>
            (jle (Finite 0) (boxEntry t 2 i) \<and> x1 \<noteq> NaN \<and> x2 \<noteq> NaN \<longrightarrow> jle x1 x2) \<and>
            (jle (Finite 0) (boxEntry t 3 i) \<and> y1 \<noteq> NaN \<and> y2 \<noteq> NaN \<longrightarrow> jle y1 y2))"
proof -
  from assms(1) obtain u no nd rest j where dm: "dims t = u # no # nd # rest" and j: "j < nd"
    and c: "decodeCandidate classes thr (data t) nd (int no - 4) j = Some d"
    by (auto simp: processDetections_mem)
  have nd: "dims t ! 2 = nd" and no: "dims t ! 1 = no" by (simp_all add: dm)
  have per: "(isFinite (boxEntry t 0 i) \<and> isFinite (boxEntry t 2 i)
               \<longrightarrow> x1 \<noteq> NaN \<and> x2 \<noteq> NaN) \<and>
            (isFinite (boxEntry t 1 i) \<and> isFinite (boxEntry t 3 i)
               \<longrightarrow> y1 \<noteq> NaN \<and> y2 \<noteq> NaN) \<and>
            (jle (Finite 0) (boxEntry t 2 i) \<and> x1 \<noteq> NaN \<and> x2 \<noteq> NaN \<longrightarrow> jle x1 x2) \<and>
            (jle (Finite 0) (boxEntry t 3 i) \<and> y1 \<noteq> NaN \<and> y2 \<noteq> NaN \<longrightarrow> jle y1 y2) \<and>
            (x1 = NaN \<or> inUnit x1) \<and> (y1 = NaN \<or> inUnit y1) \<and>
            (x2 = NaN \<or> inUnit x2) \<and> (y2 = NaN \<or> inUnit y2)"
    if ci: "candidateOf classes thr t i = Some d" for i
  proof -
    let ?cx = "boxEntry t 0 i" and ?cy = "boxEntry t 1 i"
    let ?w = "boxEntry t 2 i" and ?h = "boxEntry t 3 i"
    from ci assms(2) have
      x1: "x1 = clamp01 (jdivc (jsub ?cx (jdivc ?w 2)) IMG_SIZE)" and
      y1: "y1 = clamp01 (jdivc (jsub ?cy (jdivc ?h 2)) IMG_SIZE)" and
      x2: "x2 = clamp01 (jdivc (jadd ?cx (jdivc ?w 2)) IMG_SIZE)" and
      y2: "y2 = clamp01 (jdivc (jadd ?cy (jdivc ?h 2)) IMG_SIZE)"
      by (auto simp: candidateOf_def boxEntry_def elim!: decodeCandidate_Some)
    have "x1 \<noteq> NaN \<and> x2 \<noteq> NaN" if "isFinite ?cx \<and> isFinite ?w"
      using that corners_defined [of ?cx ?w] by (simp add: x1 x2)
    moreover have "y1 \<noteq> NaN \<and> y2 \<noteq> NaN" if "isFinite ?cy \<and> isFinite ?h"
      using that corners_defined [of ?cy ?h] by (simp add: y1 y2)
    moreover have "jle x1 x2" if "jle (Finite 0) ?w \<and> x1 \<noteq> NaN \<and> x2 \<noteq> NaN"
      using that corners_ordered [of ?w ?cx] by (simp add: x1 x2)
    moreover have "jle y1 y2" if "jle (Finite 0) ?h \<and> y1 \<noteq> NaN \<and> y2 \<noteq> NaN"
      using that corners_ordered [of ?h ?cy] by (simp add: y1 y2)
    moreover have "x1 = NaN \<or> inUnit x1" "x2 = NaN \<or> inUnit x2"
      "y1 = NaN \<or> inUnit y1" "y2 = NaN \<or> inUnit y2"
      unfolding x1 x2 y1 y2 by (rule corner_range)+
    ultimately show ?thesis by blast
  qed
  from c have cj: "candidateOf classes thr t j = Some d"
    by (simp add: candidateOf_def dm)
  from per [OF cj] have rng: "(x1 = NaN \<or> inUnit x1) \<and> (y1 = NaN \<or> inUnit y1) \<and>
            (x2 = NaN \<or> inUnit x2) \<and> (y2 = NaN \<or> inUnit y2)"
    by blast
  from cj j have ex: "\<exists>i < dims t ! 2. candidateOf classes thr t i = Some d"
    by (auto simp: nd)
  from rng ex per show ?thesis by blast
qed

lemma mixedWidths_half:
  "processDetections COCO_CLASSES (Finite (1 / 2)) mixedWidths =
     [\<lparr> classId = 0, score = Finite (7 / 8),
        bbox = (Finite (3 / 8), Finite (3 / 8), Finite (5 / 8), Finite (5 / 8)),
        className = ''angry'' \<rparr>]"
  by (simp add: mixedWidths_def processDetections_def decodeLoop.simps decodeCandidate_def
      scanClasses.simps classScore_def rd_def clamp01_def jmax_def jmin_def IMG_SIZE_def
      COCO_CLASSES_def Let_def)

lemma mixedWidths_candidates:
  "candidateOf COCO_CLASSES (Finite (1 / 2)) mixedWidths 0 = None \<and>
   candidateOf COCO_CLASSES (Finite (1 / 2)) mixedWidths 1 =
     Some \<lparr> classId = 0, score = Finite (7 / 8),
        bbox = (Finite (3 / 8), Finite (3 / 8), Finite (5 / 8), Finite (5 / 8)),
        className = ''angry'' \<rparr>"
  by (simp add: candidateOf_def mixedWidths_def decodeCandidate_def
      scanClasses.simps classScore_def rd_def clamp01_def jmax_def jmin_def IMG_SIZE_def
      COCO_CLASSES_def Let_def)

theorem bbox_clamped_and_ordered_witness:
  "\<lparr> classId = 0, score = Finite (7 / 8),
     bbox = (Finite (3 / 8), Finite (3 / 8), Finite (5 / 8), Finite (5 / 8)),
     className = ''angry'' \<rparr> \<in> set (processDetections COCO_CLASSES (Finite (1 / 2)) mixedWidths) \<and>
   candidateOf COCO_CLASSES (Finite (1 / 2)) mixedWidths 0 = None \<and>
   boxEntry mixedWidths 2 0 = Finite (- 64) \<and>
   (1::nat) < dims mixedWidths ! 2 \<and>
   candidateOf COCO_CLASSES (Finite (1 / 2)) mixedWidths 1 =
     Some \<lparr> classId = 0, score = Finite (7 / 8),
        bbox = (Finite (3 / 8), Finite (3 / 8), Finite (5 / 8), Finite (5 / 8)),
        className = ''angry'' \<rparr> \<and>
   boxEntry mixedWidths 0 1 = Finite 64 \<and> boxEntry mixedWidths 1 1 = Finite 64 \<and>
   boxEntry mixedWidths 2 1 = Finite 32 \<and> boxEntry mixedWidths 3 1 = Finite 32 \<and>
   jle (Finite 0) (Finite 32) \<and>
   inUnit (Finite (3 / 8)) \<and> inUnit (Finite (5 / 8)) \<and> jle (Finite (3 / 8)) (Finite (5 / 8))"
proof -
  let ?d = "\<lparr> classId = 0, score = Finite (7 / 8),
     bbox = (Finite (3 / 8), Finite (3 / 8), Finite (5 / 8), Finite (5 / 8)),
     className = ''angry'' \<rparr>"
  have h1: "?d \<in> set (processDetections COCO_CLASSES (Finite (1 / 2)) mixedWidths)"
    by (simp add: mixedWidths_half)
  have h2: "bbox ?d = (Finite (3 / 8), Finite (3 / 8), Finite (5 / 8), Finite (5 / 8))"
    by simp
  have i: "(1::nat) < dims mixedWidths ! 2"
    by (simp add: mixedWidths_def)
  have e: "boxEntry mixedWidths 2 0 = Finite (- 64) \<and>
      boxEntry mixedWidths 0 1 = Finite 64 \<and> boxEntry mixedWidths 1 1 = Finite 64 \<and>
      boxEntry mixedWidths 2 1 = Finite 32 \<and> boxEntry mixedWidths 3 1 = Finite 32"
    by (simp add: boxEntry_def mixedWidths_def rd_def)
  have g: "jle (Finite 0) (Finite 32)"
    by (simp add: jle_def)
  note r = bbox_clamped_and_ordered [OF h1 h2]
  from r i mixedWidths_candidates e g
  have "jle (Finite (3 / 8)) (Finite (5 / 8))"
    by (simp add: isFinite_def)
  moreover from r have "inUnit (Finite (3 / 8)) \<and> inUnit (Finite (5 / 8))"
    by simp
  ultimately show ?thesis
    using h1 i mixedWidths_candidates e g by simp
qed

text \<open>
  The claim as stated fails for a negative raw width: the left edge is clamped to 3/4
  and the right edge to 1/4. It also fails when the box entries are not finite: an
  infinite centre minus half an infinite width is NaN, and the clamp of NaN is NaN.
\<close>

theorem bbox_order_counterexample:
  "processDetections COCO_CLASSES (Finite (1 / 2)) negativeWidth =
     [\<lparr> classId = 0, score = Finite (7 / 8),
        bbox = (Finite (3 / 4), Finite (3 / 8), Finite (1 / 4), Finite (5 / 8)),
        className = ''angry'' \<rparr>] \<and>
   \<not> jle (Finite (3 / 4)) (Finite (1 / 4)) \<and>
   processDetections COCO_CLASSES (Finite (1 / 2)) infiniteBox =
     [\<lparr> classId = 0, score = Finite (7 / 8),
        bbox = (NaN, Finite (3 / 8), Finite 1, Finite (5 / 8)),
        className = ''angry'' \<rparr>] \<and>
   \<not> inUnit NaN"
  by (simp add: negativeWidth_def infiniteBox_def inUnit_def processDetections_def
      decodeLoop.simps decodeCandidate_def scanClasses.simps classScore_def rd_def clamp01_def
      jmax_def jmin_def jle_def IMG_SIZE_def COCO_CLASSES_def Let_def)

text \<open>
  The scan of a whole column, from the initial values: the result is at least 0 and no
  class score exceeds it; either it is the initial pair, or it is positive and held by the
  selected row and by no earlier row.
\<close>

lemma scan_column:
  assumes "scanClasses dat nd i nc 0 (Finite 0) 0 = (ms, mc)"
  shows "ms \<noteq> NaN" and "\<not> jgt (Finite 0) ms"
    and "\<And>j. int j < nc \<Longrightarrow> \<not> jgt (classScore dat nd i j) ms"
    and "(ms = Finite 0 \<and> mc = 0) \<or>
         (jgt ms (Finite 0) \<and> int mc < nc \<and> classScore dat nd i mc = ms \<and>
          (\<forall>j < mc. classScore dat nd i j \<noteq> ms))"
proof -
  show "ms \<noteq> NaN"
    using scan_notNaN [of "Finite 0" dat nd i nc 0 0] assms by simp
  from scan_upper [of "Finite 0" dat nd i nc 0 0] assms
  show "\<not> jgt (Finite 0) ms" and "\<And>j. int j < nc \<Longrightarrow> \<not> jgt (classScore dat nd i j) ms"
    by simp_all
  from scan_choice [OF assms]
  show "(ms = Finite 0 \<and> mc = 0) \<or>
         (jgt ms (Finite 0) \<and> int mc < nc \<and> classScore dat nd i mc = ms \<and>
          (\<forall>j < mc. classScore dat nd i j \<noteq> ms))"
    by auto
qed

text \<open>
  C4, as the code has it. The running maximum starts at 0, not at the first score. For
  every candidate column of a well-shaped tensor the scan ends with a score that is at
  least 0 and that no class score of the column exceeds. Either it is positive, and then
  it is the maximum raw score of the column and \<^verbatim>\<open>maxClassId\<close> is the first row
  holding it; or no class score is positive, and then it is 0 with \<^verbatim>\<open>maxClassId\<close> 0.
  The score of the detection is this value clamped into the interval from 0 to 1.
\<close>

theorem scan_selects_maximum_above_zero:
  assumes "wellShaped t" and "dims t = [b, numOutputs, numDetections]"
    and "i < numDetections"
    and "scanClasses (data t) numDetections i (int numOutputs - 4) 0 (Finite 0) 0
           = (maxScore, maxClassId)"
  shows "jle (Finite 0) maxScore \<and>
         (\<forall>j < numOutputs - 4. \<not> jgt (classScore (data t) numDetections i j) maxScore) \<and>
         ((maxScore = Finite 0 \<and> maxClassId = 0 \<and>
             (\<forall>j < numOutputs - 4. \<not> jgt (classScore (data t) numDetections i j) (Finite 0))) \<or>
          (jgt maxScore (Finite 0) \<and> maxClassId < numOutputs - 4 \<and>
             classScore (data t) numDetections i maxClassId = maxScore \<and>
             (\<forall>j < maxClassId. classScore (data t) numDetections i j \<noteq> maxScore))) \<and>
         inUnit (jmin (jmax maxScore (Finite 0)) (Finite 1)) \<and>
         (\<forall>d. decodeCandidate classes thr (data t) numDetections (int numOutputs - 4) i = Some d
              \<longrightarrow> classId d = maxClassId \<and>
                  score d = jmin (jmax maxScore (Finite 0)) (Finite 1))"
proof -
  from assms(1,2) have no: "5 \<le> numOutputs"
    by (simp add: wellShaped_def)
  note sc = scan_column [OF assms(4)]
  have ge: "jle (Finite 0) maxScore"
    using sc(1,2) jgt_total [of maxScore "Finite 0"] by (auto simp: jle_def)
  have ub: "\<not> jgt (classScore (data t) numDetections i j) maxScore" if "j < numOutputs - 4" for j
    using that no by (intro sc(3)) linarith
  have ch: "(maxScore = Finite 0 \<and> maxClassId = 0 \<and>
             (\<forall>j < numOutputs - 4. \<not> jgt (classScore (data t) numDetections i j) (Finite 0))) \<or>
          (jgt maxScore (Finite 0) \<and> maxClassId < numOutputs - 4 \<and>
             classScore (data t) numDetections i maxClassId = maxScore \<and>
             (\<forall>j < maxClassId. classScore (data t) numDetections i j \<noteq> maxScore))"
    using sc(4)
  proof
    assume "maxScore = Finite 0 \<and> maxClassId = 0"
    with ub show ?thesis by auto
  next
    assume h: "jgt maxScore (Finite 0) \<and> int maxClassId < int numOutputs - 4 \<and>
      classScore (data t) numDetections i maxClassId = maxScore \<and>
      (\<forall>j < maxClassId. classScore (data t) numDetections i j \<noteq> maxScore)"
    then have "maxClassId < numOutputs - 4" by linarith
    with h show ?thesis by blast
  qed
  have un: "inUnit (jmin (jmax maxScore (Finite 0)) (Finite 1))"
    using sc(1) by (rule clampScore_inUnit)
  have dd: "classId d = maxClassId \<and> score d = jmin (jmax maxScore (Finite 0)) (Finite 1)"
    if "decodeCandidate classes thr (data t) numDetections (int numOutputs - 4) i = Some d" for d
    using that assms(4) by (auto elim!: decodeCandidate_Some)
  from ge ub ch un dd show ?thesis by blast
qed

lemma threeClasses_scan:
  "scanClasses (data threeClasses) 1 0 (int 7 - 4) 0 (Finite 0) 0 = (Finite (3 / 4), 1)"
  by (simp add: threeClasses_def scanClasses.simps classScore_def rd_def)

lemma threeClasses_candidate:
  "decodeCandidate COCO_CLASSES (Finite (1 / 2)) (data threeClasses) 1 (int 7 - 4) 0 =
     Some \<lparr> classId = 1, score = Finite (3 / 4),
            bbox = (Finite (3 / 8), Finite (3 / 8), Finite (5 / 8), Finite (5 / 8)),
            className = ''fear'' \<rparr>"
  by (simp add: threeClasses_def decodeCandidate_def scanClasses.simps classScore_def rd_def
      clamp01_def jmax_def jmin_def IMG_SIZE_def COCO_CLASSES_def Let_def)

theorem scan_selects_maximum_above_zero_witness:
  "wellShaped threeClasses \<and> dims threeClasses = [1, 7, 1] \<and> (0::nat) < 1 \<and>
   scanClasses (data threeClasses) 1 0 (int 7 - 4) 0 (Finite 0) 0 = (Finite (3 / 4), 1) \<and>
   classScore (data threeClasses) 1 0 0 = Finite (1 / 4) \<and>
   classScore (data threeClasses) 1 0 1 = Finite (3 / 4) \<and>
   classScore (data threeClasses) 1 0 2 = Finite (1 / 2) \<and>
   jle (Finite 0) (Finite (3 / 4)) \<and>
   jgt (Finite (3 / 4)) (Finite 0) \<and> (1::nat) < 7 - 4 \<and>
   inUnit (jmin (jmax (Finite (3 / 4)) (Finite 0)) (Finite 1)) \<and>
   decodeCandidate COCO_CLASSES (Finite (1 / 2)) (data threeClasses) 1 (int 7 - 4) 0 =
     Some \<lparr> classId = 1, score = Finite (3 / 4),
            bbox = (Finite (3 / 8), Finite (3 / 8), Finite (5 / 8), Finite (5 / 8)),
            className = ''fear'' \<rparr> \<and>
   Finite (3 / 4) = jmin (jmax (Finite (3 / 4)) (Finite 0)) (Finite 1)"
proof -
  have h1: "wellShaped threeClasses"
    by (simp add: wellShaped_def threeClasses_def)
  have h2: "dims threeClasses = [1, 7, 1]"
    by (simp add: threeClasses_def)
  have h3: "(0::nat) < 1" by simp
  have h4: "classScore (data threeClasses) 1 0 0 = Finite (1 / 4) \<and>
      classScore (data threeClasses) 1 0 1 = Finite (3 / 4) \<and>
      classScore (data threeClasses) 1 0 2 = Finite (1 / 2)"
    by (simp add: threeClasses_def classScore_def rd_def)
  note r = scan_selects_maximum_above_zero [OF h1 h2 h3 threeClasses_scan,
      of COCO_CLASSES "Finite (1 / 2)"]
  from r threeClasses_candidate
  have "Finite (3 / 4) = jmin (jmax (Finite (3 / 4)) (Finite 0)) (Finite 1)"
    by (metis detection.select_convs(2))
  with r show ?thesis
    using h1 h2 h4 threeClasses_scan threeClasses_candidate by simp
qed

text \<open>
  The claim as stated fails when every class score of the column is negative: the maximum
  raw score is -1/4 in class row 1, and the scan keeps score 0 and class 0; with a
  negative threshold the detection carries class 0.
\<close>

theorem negative_scores_counterexample:
  "wellShaped negativeScores \<and>
   classScore (data negativeScores) 1 0 0 = Finite (- 1 / 2) \<and>
   classScore (data negativeScores) 1 0 1 = Finite (- 1 / 4) \<and>
   jgt (Finite (- 1 / 4)) (Finite (- 1 / 2)) \<and>
   scanClasses (data negativeScores) 1 0 (int 6 - 4) 0 (Finite 0) 0 = (Finite 0, 0) \<and>
   processDetections COCO_CLASSES (Finite (- 1 / 2)) negativeScores =
     [\<lparr> classId = 0, score = Finite 0,
        bbox = (Finite (3 / 8), Finite (3 / 8), Finite (5 / 8), Finite (5 / 8)),
        className = ''angry'' \<rparr>]"
  by (simp add: wellShaped_def negativeScores_def processDetections_def
      decodeLoop.simps decodeCandidate_def scanClasses.simps classScore_def rd_def clamp01_def
      jmax_def jmin_def IMG_SIZE_def COCO_CLASSES_def Let_def)

text \<open>
  C10, as the code has it. For an accepted candidate of a well-shaped tensor: a class row
  that holds the maximum raw score of the column, when that score is positive, has an
  index at least \<^verbatim>\<open>classId\<close>, and the row \<^verbatim>\<open>classId\<close> holds the same score, so that
  among tied rows the lowest index wins; and when every class score of the column is at
  most 0, the score is 0, the class is 0 and the threshold is negative.
\<close>

theorem ties_and_columns_without_positive_score:
  assumes "wellShaped t" and "dims t = [b, numOutputs, numDetections]"
    and "i < numDetections"
    and "decodeCandidate classes thr (data t) numDetections (int numOutputs - 4) i = Some d"
  shows "(\<forall>r < numOutputs - 4.
            jgt (classScore (data t) numDetections i r) (Finite 0) \<and>
            (\<forall>j < numOutputs - 4. \<not> jgt (classScore (data t) numDetections i j)
                                         (classScore (data t) numDetections i r))
            \<longrightarrow> classId d \<le> r \<and>
                classScore (data t) numDetections i (classId d)
                  = classScore (data t) numDetections i r) \<and>
         ((\<forall>j < numOutputs - 4. jle (classScore (data t) numDetections i j) (Finite 0))
            \<longrightarrow> score d = Finite 0 \<and> classId d = 0 \<and> jgt (Finite 0) thr)"
proof -
  let ?S = "classScore (data t) numDetections i"
  from assms(1,2) have no: "5 \<le> numOutputs"
    by (simp add: wellShaped_def)
  from assms(4) obtain ms mc
    where s: "scanClasses (data t) numDetections i (int numOutputs - 4) 0 (Finite 0) 0 = (ms, mc)"
      and cid: "classId d = mc"
    by (rule decodeCandidate_Some)
  note sc = scan_column [OF s]
  have tie: "classId d \<le> r \<and> ?S (classId d) = ?S r"
    if r: "r < numOutputs - 4" and pos: "jgt (?S r) (Finite 0)"
      and mx: "\<forall>j < numOutputs - 4. \<not> jgt (?S j) (?S r)" for r
  proof -
    from r no have nr: "\<not> jgt (?S r) ms" by (intro sc(3)) linarith
    from pos have rn: "?S r \<noteq> NaN" by auto
    from pos nr have "ms \<noteq> Finite 0" by auto
    with sc(4) have m: "int mc < int numOutputs - 4" "?S mc = ms"
      and first: "\<forall>j < mc. ?S j \<noteq> ms"
      by auto
    from m(1) have "mc < numOutputs - 4" by linarith
    with mx have "\<not> jgt (?S mc) (?S r)" by simp
    with m(2) have "\<not> jgt ms (?S r)" by simp
    with nr sc(1) rn have eq: "ms = ?S r"
      using jgt_total [of ms "?S r"] by blast
    with first have "\<not> r < mc" by auto
    with eq m(2) cid show ?thesis by simp
  qed
  have none: "score d = Finite 0 \<and> classId d = 0 \<and> jgt (Finite 0) thr"
    if le: "\<forall>j < numOutputs - 4. jle (?S j) (Finite 0)"
  proof (rule decodeCandidate_noPositive [OF _ assms(4)])
    fix k
    assume "int k < int numOutputs - 4"
    then have "k < numOutputs - 4" by linarith
    with le have "jle (?S k) (Finite 0)" by simp
    then show "\<not> jgt (?S k) (Finite 0)" by (rule jle_not_jgt)
  qed
  from tie none show ?thesis by blast
qed

lemma tiePositive_candidate:
  "decodeCandidate COCO_CLASSES (Finite (1 / 2)) (data tiePositive) 1 (int 7 - 4) 0 =
     Some \<lparr> classId = 1, score = Finite (3 / 4),
            bbox = (Finite (3 / 8), Finite (3 / 8), Finite (5 / 8), Finite (5 / 8)),
            className = ''fear'' \<rparr>"
  by (simp add: tiePositive_def decodeCandidate_def scanClasses.simps classScore_def rd_def
      clamp01_def jmax_def jmin_def IMG_SIZE_def COCO_CLASSES_def Let_def)

lemma tieAtZero_candidate:
  "decodeCandidate COCO_CLASSES (Finite (- 1 / 2)) (data tieAtZero) 1 (int 7 - 4) 0 =
     Some \<lparr> classId = 0, score = Finite 0,
            bbox = (Finite (3 / 8), Finite (3 / 8), Finite (5 / 8), Finite (5 / 8)),
            className = ''angry'' \<rparr>"
  by (simp add: tieAtZero_def decodeCandidate_def scanClasses.simps classScore_def rd_def
      clamp01_def jmax_def jmin_def IMG_SIZE_def COCO_CLASSES_def Let_def)

lemma all3: "(\<forall>k < (3::nat). P k) = (P 0 \<and> P 1 \<and> P 2)"
  by (simp add: numeral_eq_Suc less_Suc_eq) blast

theorem ties_and_columns_without_positive_score_witness:
  "wellShaped tiePositive \<and> dims tiePositive = [1, 7, 1] \<and>
   decodeCandidate COCO_CLASSES (Finite (1 / 2)) (data tiePositive) 1 (int 7 - 4) 0 =
     Some \<lparr> classId = 1, score = Finite (3 / 4),
            bbox = (Finite (3 / 8), Finite (3 / 8), Finite (5 / 8), Finite (5 / 8)),
            className = ''fear'' \<rparr> \<and>
   (2::nat) < 7 - 4 \<and> jgt (classScore (data tiePositive) 1 0 2) (Finite 0) \<and>
   \<not> jgt (classScore (data tiePositive) 1 0 0) (classScore (data tiePositive) 1 0 2) \<and>
   \<not> jgt (classScore (data tiePositive) 1 0 1) (classScore (data tiePositive) 1 0 2) \<and>
   (1::nat) \<le> 2 \<and> classScore (data tiePositive) 1 0 1 = classScore (data tiePositive) 1 0 2 \<and>
   wellShaped tieAtZero \<and> dims tieAtZero = [1, 7, 1] \<and>
   decodeCandidate COCO_CLASSES (Finite (- 1 / 2)) (data tieAtZero) 1 (int 7 - 4) 0 =
     Some \<lparr> classId = 0, score = Finite 0,
            bbox = (Finite (3 / 8), Finite (3 / 8), Finite (5 / 8), Finite (5 / 8)),
            className = ''angry'' \<rparr> \<and>
   jle (classScore (data tieAtZero) 1 0 0) (Finite 0) \<and>
   jle (classScore (data tieAtZero) 1 0 1) (Finite 0) \<and>
   jle (classScore (data tieAtZero) 1 0 2) (Finite 0) \<and>
   jgt (Finite 0) (Finite (- 1 / 2))"
proof -
  have a1: "wellShaped tiePositive" by (simp add: wellShaped_def tiePositive_def)
  have a2: "dims tiePositive = [1, 7, 1]" by (simp add: tiePositive_def)
  have b1: "wellShaped tieAtZero" by (simp add: wellShaped_def tieAtZero_def)
  have b2: "dims tieAtZero = [1, 7, 1]" by (simp add: tieAtZero_def)
  have i: "(0::nat) < 1" by simp
  have a3: "(2::nat) < 7 - 4 \<and> jgt (classScore (data tiePositive) 1 0 2) (Finite 0) \<and>
    (\<forall>j < 7 - 4. \<not> jgt (classScore (data tiePositive) 1 0 j) (classScore (data tiePositive) 1 0 2))"
    by (simp add: tiePositive_def classScore_def rd_def all3)
  have b3: "\<forall>j < 7 - 4. jle (classScore (data tieAtZero) 1 0 j) (Finite 0)"
    by (simp add: tieAtZero_def classScore_def rd_def all3 jle_def)
  note p = ties_and_columns_without_positive_score [OF a1 a2 i tiePositive_candidate]
  note z = ties_and_columns_without_positive_score [OF b1 b2 i tieAtZero_candidate]
  from p a3 have "(1::nat) \<le> 2 \<and>
      classScore (data tiePositive) 1 0 1 = classScore (data tiePositive) 1 0 2"
    by (metis detection.select_convs(1))
  moreover from z b3 have "jgt (Finite 0) (Finite (- 1 / 2))"
    by blast
  ultimately show ?thesis
    using a1 a2 a3 b1 b2 b3 tiePositive_candidate tieAtZero_candidate
    by (simp add: all3)
qed

text \<open>
  The claim as stated fails when the shared maximum is not positive: class rows 1 and 2
  share the maximum raw score 0, row 0 holds -1, and the detection carries class 0.
\<close>

theorem tie_at_zero_counterexample:
  "wellShaped tieAtZero \<and>
   classScore (data tieAtZero) 1 0 0 = Finite (- 1) \<and>
   classScore (data tieAtZero) 1 0 1 = Finite 0 \<and>
   classScore (data tieAtZero) 1 0 2 = Finite 0 \<and>
   jgt (Finite 0) (Finite (- 1)) \<and>
   processDetections COCO_CLASSES (Finite (- 1 / 2)) tieAtZero =
     [\<lparr> classId = 0, score = Finite 0,
        bbox = (Finite (3 / 8), Finite (3 / 8), Finite (5 / 8), Finite (5 / 8)),
        className = ''angry'' \<rparr>]"
  by (simp add: wellShaped_def tieAtZero_def processDetections_def
      decodeLoop.simps decodeCandidate_def scanClasses.simps classScore_def rd_def clamp01_def
      jmax_def jmin_def IMG_SIZE_def COCO_CLASSES_def Let_def)

section \<open>Properties of the preprocessor and of the frame counter\<close>








text \<open>
  C7. Whatever the frame, and so whatever the canvas bytes read back, the tensor has
  \<^verbatim>\<open>3 * sz * sz\<close> entries.
\<close>

theorem preprocess_length: "length (preprocessImage sz pixels) = 3 * sz * sz"
  by (simp add: preprocessImage_def length_fillPlanes)

text \<open>
  C9 against the code. The interval callback runs every millisecond, so the published
  value is the number of cycles completed during the last millisecond, not during a
  second: with one cycle completed every 20 milliseconds, 50 cycles complete in the first
  second and the value published at its end is 1.
\<close>

theorem fps_counts_one_millisecond:
  "completedIn every20ms 1000 1000 = 50 \<and>
   fps (runMs every20ms 1000 (startDetection \<lparr> frameCount = 0, fps = 0 \<rparr>)) = 1 \<and>
   fps (runMs every20ms 999 (startDetection \<lparr> frameCount = 0, fps = 0 \<rparr>)) = 0"
  using fps_runMs [of every20ms 999 "startDetection \<lparr> frameCount = 0, fps = 0 \<rparr>"]
    fps_runMs [of every20ms 998 "startDetection \<lparr> frameCount = 0, fps = 0 \<rparr>"]
    sum20 [of 50]
  by (simp add: every20ms_def completedIn_def)

end
